theory Spec2Isabelle
  imports Complex_Main
begin

section \<open>Conventions\<close>

text \<open>
  The page (\<^verbatim>\<open>src/app/page.tsx\<close>) is a set of React hooks. Each hook is embedded as a
  record of its \<^verbatim>\<open>useState\<close>/\<^verbatim>\<open>useRef\<close> cells and one function per callback or effect
  body, which takes the cells (and what the callback reads from the browser: the clock,
  the viewport, the event) and returns the updated cells.

  JavaScript numbers are idealised as mathematical numbers: \<^typ>\<open>real\<close> for positions,
  factors and high-resolution timestamps, \<^typ>\<open>int\<close> for pixel widths, frame counts and
  \<^verbatim>\<open>Date.now()\<close> readings. An object \<^verbatim>\<open>{x, y}\<close> is the pair \<open>(x, y)\<close>.
  \<^verbatim>\<open>Math.round\<close> rounds half up.
\<close>

definition Math_round :: "real \<Rightarrow> int" where
  "Math_round v = \<lfloor>v + 1 / 2\<rfloor>"

section \<open>Frame-rate sampler: \<^verbatim>\<open>usePerformanceMonitor\<close>\<close>

datatype performance_level = High | Medium | Low

record monitor =
  fps :: int
  performanceLevel :: performance_level
  isMonitoring :: bool
  frameCount :: int
  lastTime :: real
  fpsHistory :: "int list"

text \<open>The cells at mount; \<open>t0\<close> is the reading of \<^verbatim>\<open>performance.now()\<close> at that moment.\<close>

definition usePerformanceMonitor_init :: "real \<Rightarrow> monitor" where
  "usePerformanceMonitor_init t0 =
     \<lparr>fps = 60, performanceLevel = High, isMonitoring = False,
      frameCount = 0, lastTime = t0, fpsHistory = []\<rparr>"

text \<open>\<^verbatim>\<open>fpsHistory.current.reduce((a, b) => a + b, 0) / fpsHistory.current.length\<close>\<close>

definition history_mean :: "int list \<Rightarrow> real" where
  "history_mean h = real_of_int (foldl (+) 0 h) / real (length h)"

definition level_of :: "real \<Rightarrow> performance_level" where
  "level_of avgFPS =
     (if avgFPS \<ge> 55 then High else if avgFPS \<ge> 35 then Medium else Low)"

text \<open>
  One run of the per-frame callback \<^verbatim>\<open>measureFPS\<close>; \<open>now\<close> is its reading of
  \<^verbatim>\<open>performance.now()\<close>. Rescheduling itself through \<^verbatim>\<open>requestAnimationFrame\<close> is what
  produces the next run; a sequence of runs is the list of their clock readings.
\<close>

definition measureFPS :: "real \<Rightarrow> monitor \<Rightarrow> monitor" where
  "measureFPS now s =
     (let frames = frameCount s + 1 in
      if now - lastTime s \<ge> 1000 then
        (let currentFPS = Math_round (real_of_int (frames * 1000) / (now - lastTime s));
             pushed = fpsHistory s @ [currentFPS];
             history = (if length pushed > 10 then tl pushed else pushed)
         in s\<lparr>fps := currentFPS,
              fpsHistory := history,
              performanceLevel := level_of (history_mean history),
              frameCount := 0,
              lastTime := now\<rparr>)
      else s\<lparr>frameCount := frames\<rparr>)"

fun run_frames :: "monitor \<Rightarrow> real list \<Rightarrow> monitor" where
  "run_frames s [] = s"
| "run_frames s (now # ts) = run_frames (measureFPS now s) ts"

text \<open>
  The per-window FPS values of a run: the value \<^verbatim>\<open>setFps\<close> publishes at each callback
  that completes a measurement window, in order.
\<close>

fun window_samples :: "monitor \<Rightarrow> real list \<Rightarrow> int list" where
  "window_samples s [] = []"
| "window_samples s (now # ts) =
     (if now - lastTime s \<ge> 1000 then [fps (measureFPS now s)] else [])
       @ window_samples (measureFPS now s) ts"

text \<open>The \<^verbatim>\<open>avgFPS\<close> field of the object the hook returns.\<close>

definition avgFPS :: "monitor \<Rightarrow> int" where
  "avgFPS s =
     (if length (fpsHistory s) > 0 then Math_round (history_mean (fpsHistory s)) else 60)"

text \<open>The last \<open>min 10 n\<close> entries of a list of \<open>n\<close> entries.\<close>

definition last10 :: "'a list \<Rightarrow> 'a list" where
  "last10 ws = drop (length ws - min 10 (length ws)) ws"

section \<open>Adaptive animation policy: \<^verbatim>\<open>useOptimizedAnimation\<close>\<close>

record animation_policy =
  shouldAnimate :: bool
  animationQuality :: real

definition useOptimizedAnimation_init :: "bool \<Rightarrow> animation_policy" where
  "useOptimizedAnimation_init enabled = \<lparr>shouldAnimate = enabled, animationQuality = 1\<rparr>"

text \<open>
  The effect body; \<open>innerWidth\<close> is \<^verbatim>\<open>window.innerWidth\<close> as read when the effect runs.
\<close>

definition useOptimizedAnimation_effect ::
  "performance_level \<Rightarrow> bool \<Rightarrow> int \<Rightarrow> animation_policy \<Rightarrow> animation_policy" where
  "useOptimizedAnimation_effect level enabled innerWidth p =
     (case level of
        High \<Rightarrow> p\<lparr>animationQuality := 1, shouldAnimate := enabled\<rparr>
      | Medium \<Rightarrow> p\<lparr>animationQuality := 7 / 10, shouldAnimate := enabled\<rparr>
      | Low \<Rightarrow> p\<lparr>animationQuality := 4 / 10,
                 shouldAnimate := (enabled \<and> innerWidth > 768)\<rparr>)"

section \<open>Visibility tracker: \<^verbatim>\<open>useScrollAnimation\<close>\<close>

text \<open>
  \<open>observing\<close> says whether the hook's current \<^verbatim>\<open>IntersectionObserver\<close> still watches
  the element; \<open>threshold\<close> and \<open>rootMargin\<close> are the options it was created with.
\<close>

record scroll_animation =
  isVisible :: bool
  observing :: bool
  threshold :: real
  rootMargin :: string

definition useScrollAnimation_init :: scroll_animation where
  "useScrollAnimation_init =
     \<lparr>isVisible = False, observing = False, threshold = 0, rootMargin = []\<rparr>"

text \<open>
  The effect, run at mount and again whenever \<^verbatim>\<open>performanceLevel\<close> changes (the cleanup
  of the previous run has unobserved the element): a new observer is created and, the
  element being mounted, attached.
\<close>

definition useScrollAnimation_effect ::
  "performance_level \<Rightarrow> scroll_animation \<Rightarrow> scroll_animation" where
  "useScrollAnimation_effect level s =
     s\<lparr>threshold := (if level = Low then 3 / 10 else 1 / 10),
       rootMargin := (if level = Low then ''0px'' else ''0px 0px -50px 0px''),
       observing := True\<rparr>"

text \<open>The observer callback; \<open>isIntersecting\<close> is \<^verbatim>\<open>entry.isIntersecting\<close>.\<close>

definition observer_callback :: "bool \<Rightarrow> scroll_animation \<Rightarrow> scroll_animation" where
  "observer_callback isIntersecting s =
     (if isIntersecting then s\<lparr>isVisible := True, observing := False\<rparr> else s)"

datatype observer_event = Intersection bool | LevelChange performance_level

text \<open>The browser only calls back for an element that is observed.\<close>

fun observer_step :: "scroll_animation \<Rightarrow> observer_event \<Rightarrow> scroll_animation" where
  "observer_step s (Intersection isIntersecting) =
     (if observing s then observer_callback isIntersecting s else s)"
| "observer_step s (LevelChange level) = useScrollAnimation_effect level s"

definition observer_run :: "scroll_animation \<Rightarrow> observer_event list \<Rightarrow> scroll_animation" where
  "observer_run s evs = foldl observer_step s evs"

section \<open>Haptic feedback: \<^verbatim>\<open>useHapticFeedback\<close>\<close>

text \<open>The argument of \<^verbatim>\<open>navigator.vibrate\<close>: \<^verbatim>\<open>number | number[]\<close>.\<close>

datatype pattern = Pulse int | Pulses "int list"

text \<open>
  What the hooks see of the browser: the wall clock read by \<^verbatim>\<open>Date.now()\<close>,
  \<^verbatim>\<open>localStorage\<close>, and the calls made to \<^verbatim>\<open>navigator.vibrate\<close> so far, each with the
  clock reading at which it was made.
\<close>

record browser =
  clock :: int
  localStorage :: "string \<rightharpoonup> string"
  vibrations :: "(int \<times> pattern) list"

record haptic =
  isSupported :: bool
  isEnabled :: bool
  isMobile :: bool

definition useHapticFeedback_init :: haptic where
  "useHapticFeedback_init = \<lparr>isSupported = False, isEnabled = True, isMobile = False\<rparr>"

text \<open>
  \<^verbatim>\<open>checkSupport\<close>: \<open>ontouchstart\<close> is \<^verbatim>\<open>"ontouchstart" in window\<close>, \<open>canVibrate\<close> is
  \<^verbatim>\<open>"vibrate" in navigator\<close>.
\<close>

definition checkSupport :: "int \<Rightarrow> bool \<Rightarrow> bool \<Rightarrow> haptic \<Rightarrow> haptic" where
  "checkSupport width ontouchstart canVibrate h =
     (let mobile = (width < 768 \<or> ontouchstart)
      in h\<lparr>isMobile := mobile, isSupported := (mobile \<and> canVibrate)\<rparr>)"

text \<open>The mount effect: \<^verbatim>\<open>checkSupport()\<close>, then the saved preference if there is one.\<close>

definition useHapticFeedback_mount ::
  "int \<Rightarrow> bool \<Rightarrow> bool \<Rightarrow> browser \<Rightarrow> haptic \<Rightarrow> haptic" where
  "useHapticFeedback_mount width ontouchstart canVibrate w h =
     (let h1 = checkSupport width ontouchstart canVibrate h
      in case localStorage w ''haptic-feedback'' of
           None \<Rightarrow> h1
         | Some savedPreference \<Rightarrow> h1\<lparr>isEnabled := (savedPreference = ''true'')\<rparr>)"

text \<open>
  \<^verbatim>\<open>vibrate\<close> as created by the render whose cells are \<open>h\<close>. An exception of
  \<^verbatim>\<open>navigator.vibrate\<close> is caught and logged: the call has been made and nothing else
  changes.
\<close>

definition vibrate :: "haptic \<Rightarrow> pattern \<Rightarrow> browser \<Rightarrow> browser" where
  "vibrate h p w =
     (if isSupported h \<and> isEnabled h \<and> isMobile h
      then w\<lparr>vibrations := vibrations w @ [(clock w, p)]\<rparr>
      else w)"

text \<open>
  \<^verbatim>\<open>toggleHaptics\<close> as created by the render whose cells are \<open>h\<close>. \<^verbatim>\<open>setIsEnabled\<close> stores
  the new value for the next render; the \<^verbatim>\<open>vibrate\<close> it calls is the one of its own
  render, which reads that render's \<^verbatim>\<open>isEnabled\<close>.
\<close>

definition toggleHaptics :: "haptic \<Rightarrow> browser \<Rightarrow> haptic \<times> browser" where
  "toggleHaptics h w =
     (let newState = (\<not> isEnabled h);
          h' = h\<lparr>isEnabled := newState\<rparr>;
          w' = w\<lparr>localStorage := (localStorage w)
                  (''haptic-feedback'' \<mapsto> (if newState then ''true'' else ''false''))\<rparr>
      in if newState then (h', vibrate h (Pulse 15) w') else (h', w'))"

text \<open>The \<^verbatim>\<open>patterns\<close> catalogue.\<close>

definition patterns_touch :: pattern where
  "patterns_touch = Pulse 12"

definition patterns_release :: pattern where
  "patterns_release = Pulse 8"

definition patterns_longPress :: pattern where
  "patterns_longPress = Pulses [15, 50, 10]"

definition patterns_error :: pattern where
  "patterns_error = Pulses [20, 100, 20]"

definition patterns_success :: pattern where
  "patterns_success = Pulses [10, 50, 15, 50, 10]"

definition patterns_gentle :: pattern where
  "patterns_gentle = Pulse 6"

section \<open>Touch input: \<^verbatim>\<open>useTouchPosition\<close>\<close>

text \<open>
  \<open>pendingFrame\<close> holds the \<^verbatim>\<open>requestAnimationFrame\<close> callback a \<^verbatim>\<open>touchmove\<close> has
  scheduled, as the \<^verbatim>\<open>e.touches[0]\<close> it captured (\<open>None\<close> inside: no touch point);
  \<open>decayIntervals\<close> counts the release timers started by \<^verbatim>\<open>handleTouchEnd\<close> that have
  not cleared themselves yet.
\<close>

record touch_state =
  touchPosition :: "real \<times> real"
  isActive :: bool
  smoothedPosition :: "real \<times> real"
  lastVibrateTime :: int
  ticking :: bool
  pendingFrame :: "(real \<times> real) option option"
  decayIntervals :: nat

definition useTouchPosition_init :: touch_state where
  "useTouchPosition_init =
     \<lparr>touchPosition = (0, 0), isActive = False, smoothedPosition = (0, 0),
      lastVibrateTime = 0, ticking = False, pendingFrame = None, decayIntervals = 0\<rparr>"

text \<open>
  \<^verbatim>\<open>Math.max(-0.8, Math.min(0.8, ((client - inner / 2) / inner) * animationQuality))\<close>,
  for a viewport of positive size \<open>inner\<close>.
\<close>

definition touch_offset :: "real \<Rightarrow> int \<Rightarrow> real \<Rightarrow> real" where
  "touch_offset client inner quality =
     max (- (8 / 10))
       (min (8 / 10) (((client - real_of_int inner / 2) / real_of_int inner) * quality))"

text \<open>
  The handlers take the \<^verbatim>\<open>vibrate\<close> of the haptic cells \<open>h\<close>, the \<^verbatim>\<open>animationQuality\<close>
  \<open>q\<close>, and \<^verbatim>\<open>window.innerWidth\<close>, \<^verbatim>\<open>window.innerHeight\<close> as read when they run;
  \<open>touch\<close> is \<^verbatim>\<open>e.touches[0]\<close> as \<open>(clientX, clientY)\<close>.
\<close>

definition handleTouchStart ::
  "haptic \<Rightarrow> real \<Rightarrow> int \<Rightarrow> int \<Rightarrow> (real \<times> real) option
     \<Rightarrow> touch_state \<times> browser \<Rightarrow> touch_state \<times> browser" where
  "handleTouchStart h q innerWidth innerHeight touch sw =
     (let s1 = (fst sw)\<lparr>isActive := True\<rparr>;
          w = snd sw;
          now = clock w;
          (s2, w2) = (if now - lastVibrateTime s1 > 100
                      then (s1\<lparr>lastVibrateTime := now\<rparr>, vibrate h patterns_touch w)
                      else (s1, w))
      in case touch of
           None \<Rightarrow> (s2, w2)
         | Some (clientX, clientY) \<Rightarrow>
             (s2\<lparr>touchPosition := (touch_offset clientX innerWidth q,
                                    touch_offset clientY innerHeight q)\<rparr>, w2))"

text \<open>
  \<^verbatim>\<open>handleTouchMove\<close> reads \<^verbatim>\<open>isActive\<close> and \<^verbatim>\<open>shouldAnimate\<close> of the render that
  registered it; the effect registers it anew whenever either changes.
\<close>

definition handleTouchMove ::
  "bool \<Rightarrow> (real \<times> real) option \<Rightarrow> touch_state \<Rightarrow> touch_state" where
  "handleTouchMove animate touch s =
     (if \<not> isActive s \<or> \<not> animate then s
      else if \<not> ticking s then s\<lparr>pendingFrame := Some touch, ticking := True\<rparr>
      else s)"

text \<open>The callback \<^verbatim>\<open>handleTouchMove\<close> passes to \<^verbatim>\<open>requestAnimationFrame\<close>.\<close>

definition touchMove_frame ::
  "haptic \<Rightarrow> real \<Rightarrow> int \<Rightarrow> int \<Rightarrow> (real \<times> real) option
     \<Rightarrow> touch_state \<times> browser \<Rightarrow> touch_state \<times> browser" where
  "touchMove_frame h q innerWidth innerHeight touch sw =
     (let s = fst sw; w = snd sw;
          (s3, w3) =
            (case touch of
               None \<Rightarrow> (s, w)
             | Some (clientX, clientY) \<Rightarrow>
                 (let newPosition = (touch_offset clientX innerWidth q,
                                     touch_offset clientY innerHeight q);
                      s1 = s\<lparr>touchPosition := newPosition\<rparr>;
                      now = clock w
                  in if now - lastVibrateTime s1 > 300
                     then (let distance = sqrt ((fst newPosition)\<^sup>2 + (snd newPosition)\<^sup>2)
                           in if distance > 6 / 10
                              then (s1\<lparr>lastVibrateTime := now\<rparr>, vibrate h patterns_gentle w)
                              else (s1, w))
                     else (s1, w)))
      in (s3\<lparr>ticking := False, pendingFrame := None\<rparr>, w3))"

definition handleTouchEnd :: "haptic \<Rightarrow> touch_state \<times> browser \<Rightarrow> touch_state \<times> browser" where
  "handleTouchEnd h sw =
     ((fst sw)\<lparr>isActive := False, decayIntervals := decayIntervals (fst sw) + 1\<rparr>,
      vibrate h patterns_release (snd sw))"

text \<open>
  One tick (every 16 ms) of a release timer: the updater passed to
  \<^verbatim>\<open>setTouchPosition\<close>, which clears its own timer when it snaps to the origin. Without a
  running timer there is no tick.
\<close>

definition decay_tick :: "touch_state \<Rightarrow> touch_state" where
  "decay_tick s =
     (if decayIntervals s = 0 then s
      else (let newX = fst (touchPosition s) * (92 / 100);
                newY = snd (touchPosition s) * (92 / 100)
            in if \<bar>newX\<bar> < 1 / 100 \<and> \<bar>newY\<bar> < 1 / 100
               then s\<lparr>touchPosition := (0, 0), decayIntervals := decayIntervals s - 1\<rparr>
               else s\<lparr>touchPosition := (newX, newY)\<rparr>))"

text \<open>
  The cells after a release (\<^verbatim>\<open>touchend\<close>) followed by \<open>n\<close> ticks of the release timers,
  nothing else happening in between.
\<close>

definition release_sequence :: "haptic \<Rightarrow> touch_state \<times> browser \<Rightarrow> nat \<Rightarrow> touch_state" where
  "release_sequence h sw n = (decay_tick ^^ n) (fst (handleTouchEnd h sw))"

text \<open>One tick of the smoothing timer.\<close>

definition smoothing_tick :: "touch_state \<Rightarrow> touch_state" where
  "smoothing_tick s =
     (let prev = smoothedPosition s
      in s\<lparr>smoothedPosition :=
             (fst prev + (fst (touchPosition s) - fst prev) * (1 / 10),
              snd prev + (snd (touchPosition s) - snd prev) * (1 / 10))\<rparr>)"

text \<open>
  What reaches the hook, over a stretch in which the haptic cells \<open>h\<close> and the policy
  \<open>p\<close> stay as they are. The effects register the listeners and timers only if
  \<^verbatim>\<open>shouldAnimate\<close> holds; every event comes with the clock reading and the viewport
  size at its delivery.
\<close>

datatype touch_input =
    TouchStart "(real \<times> real) option"
  | TouchMove "(real \<times> real) option"
  | TouchEnd
  | AnimationFrame
  | DecayTick
  | SmoothingTick

record touch_event =
  time :: int
  viewportWidth :: int
  viewportHeight :: int
  input :: touch_input

definition touch_step ::
  "haptic \<Rightarrow> animation_policy \<Rightarrow> touch_state \<times> browser \<Rightarrow> touch_event
     \<Rightarrow> touch_state \<times> browser" where
  "touch_step h p sw ev =
     (let s = fst sw; w = (snd sw)\<lparr>clock := time ev\<rparr>; q = animationQuality p
      in if \<not> shouldAnimate p then (s, w)
         else case input ev of
           TouchStart touch \<Rightarrow>
             handleTouchStart h q (viewportWidth ev) (viewportHeight ev) touch (s, w)
         | TouchMove touch \<Rightarrow> (handleTouchMove (shouldAnimate p) touch s, w)
         | TouchEnd \<Rightarrow> handleTouchEnd h (s, w)
         | AnimationFrame \<Rightarrow>
             (case pendingFrame s of
                None \<Rightarrow> (s, w)
              | Some touch \<Rightarrow>
                  touchMove_frame h q (viewportWidth ev) (viewportHeight ev) touch (s, w))
         | DecayTick \<Rightarrow> (decay_tick s, w)
         | SmoothingTick \<Rightarrow> (smoothing_tick s, w))"

definition touch_run ::
  "haptic \<Rightarrow> animation_policy \<Rightarrow> touch_state \<times> browser \<Rightarrow> touch_event list
     \<Rightarrow> touch_state \<times> browser" where
  "touch_run h p sw evs = foldl (touch_step h p) sw evs"

text \<open>The clock readings of the calls to \<^verbatim>\<open>navigator.vibrate\<close> made with pattern \<open>pat\<close>.\<close>

definition pulse_times :: "pattern \<Rightarrow> browser \<Rightarrow> int list" where
  "pulse_times pat w = map fst (filter (\<lambda>c. snd c = pat) (vibrations w))"

text \<open>Every later reading exceeds every earlier one by more than \<open>d\<close>.\<close>

definition spaced :: "int \<Rightarrow> int list \<Rightarrow> bool" where
  "spaced d ts = (\<forall>i j. i < j \<longrightarrow> j < length ts \<longrightarrow> ts ! i + d < ts ! j)"

text \<open>
  What the two throttles maintain: no throttled pulse is later than \<^verbatim>\<open>lastVibrateTime\<close>,
  and the pulses of each of the two throttled patterns are spaced.
\<close>

definition cooldown_invariant :: "touch_state \<times> browser \<Rightarrow> bool" where
  "cooldown_invariant sw =
     ((\<forall>c \<in> set (vibrations (snd sw)).
         snd c = patterns_touch \<or> snd c = patterns_gentle \<longrightarrow> fst c \<le> lastVibrateTime (fst sw))
      \<and> spaced 100 (pulse_times patterns_touch (snd sw))
      \<and> spaced 300 (pulse_times patterns_gentle (snd sw)))"

section \<open>Mouse input: \<^verbatim>\<open>useMousePosition\<close>\<close>

text \<open>
  The \<^verbatim>\<open>requestAnimationFrame\<close> callback of \<^verbatim>\<open>handleMouseMove\<close>: the new value of
  \<^verbatim>\<open>mousePosition\<close>, for a viewport of positive size.
\<close>

definition mouseMove_frame :: "real \<Rightarrow> int \<Rightarrow> int \<Rightarrow> real \<times> real \<Rightarrow> real \<times> real" where
  "mouseMove_frame q innerWidth innerHeight client =
     (((fst client - real_of_int innerWidth / 2) / real_of_int innerWidth) * q,
      ((snd client - real_of_int innerHeight / 2) / real_of_int innerHeight) * q)"

section \<open>Pointer fusion: \<^verbatim>\<open>useInteractionPosition\<close>\<close>

text \<open>\<^verbatim>\<open>checkDevice\<close>: the new \<^verbatim>\<open>screenSize\<close> and \<^verbatim>\<open>isMobile\<close> cells.\<close>

definition checkDevice :: "int \<Rightarrow> int \<Rightarrow> bool \<Rightarrow> (int \<times> int) \<times> bool" where
  "checkDevice width height ontouchstart =
     ((width, height), (width < 768 \<or> ontouchstart))"

definition getScreenSizeMultiplier :: "int \<times> int \<Rightarrow> real" where
  "getScreenSizeMultiplier screenSize =
     (if fst screenSize < 400 then 7 / 10
      else if fst screenSize < 768 then 85 / 100
      else 1)"

text \<open>
  The value the hook returns, from the values of the three input hooks
  (\<open>mousePosition\<close>; the smoothed \<open>touchPos\<close> and \<open>touchActive\<close>; the smoothed
  \<open>orientation\<close> \<open>(x, y, z)\<close> and \<open>orientationSupported\<close>) and its own two cells
  \<open>device = (screenSize, isMobile)\<close>.
\<close>

definition useInteractionPosition ::
  "real \<times> real \<Rightarrow> real \<times> real \<Rightarrow> bool \<Rightarrow> real \<times> real \<times> real \<Rightarrow> bool
     \<Rightarrow> (int \<times> int) \<times> bool \<Rightarrow> real \<times> real" where
  "useInteractionPosition mousePosition touchPos touchActive orientation
       orientationSupported device =
     (let screenSize = fst device; mobile = snd device;
          sizeMultiplier = getScreenSizeMultiplier screenSize
      in if mobile then
           (if touchActive then
              (fst touchPos * sizeMultiplier, snd touchPos * sizeMultiplier)
            else if orientationSupported then
              (fst orientation * (15 / 100) * sizeMultiplier,
               fst (snd orientation) * (1 / 10) * sizeMultiplier)
            else (0, 0))
         else mousePosition)"

section \<open>Transform compositor: \<^verbatim>\<open>ParallaxElement\<close>\<close>

datatype element_size = SizeSmall | SizeMedium | SizeLarge

definition getSizeMultiplier :: "element_size \<Rightarrow> real" where
  "getSizeMultiplier sz =
     (case sz of SizeSmall \<Rightarrow> 12 / 10 | SizeLarge \<Rightarrow> 6 / 10 | SizeMedium \<Rightarrow> 1)"

definition maxMovement :: "element_size \<Rightarrow> real \<Rightarrow> real" where
  "maxMovement sz quality =
     (if sz = SizeLarge then 30 else if sz = SizeSmall then 60 else 45) * quality"

text \<open>
  The \<^verbatim>\<open>translate3d\<close> of the rendered element as \<open>(x, y)\<close> in pixels, \<open>None\<close> where the
  element is rendered without a transform.
\<close>

definition ParallaxElement ::
  "element_size \<Rightarrow> real \<Rightarrow> animation_policy \<Rightarrow> performance_level \<Rightarrow> bool
     \<Rightarrow> real \<Rightarrow> real \<times> real \<Rightarrow> (real \<times> real) option" where
  "ParallaxElement sz interactionSpeed p level isInView scrollOffset interactionPosition =
     (let sizeMultiplier = getSizeMultiplier sz;
          adjustedInteractionSpeed = interactionSpeed * sizeMultiplier * animationQuality p;
          maxMove = maxMovement sz (animationQuality p);
          shouldRender = (level \<noteq> Low \<or> isInView)
      in if \<not> shouldAnimate p \<or> \<not> shouldRender then None
         else Some
           (max (- maxMove) (min maxMove (fst interactionPosition * adjustedInteractionSpeed * 40)),
            scrollOffset
              + max (- maxMove)
                  (min maxMove (snd interactionPosition * adjustedInteractionSpeed * 25))))"

text \<open>The bound of the specification: 60, 45 and 30 pixels for the three size classes.\<close>

definition maxDisplacement :: "element_size \<Rightarrow> real" where
  "maxDisplacement sz = (case sz of SizeSmall \<Rightarrow> 60 | SizeMedium \<Rightarrow> 45 | SizeLarge \<Rightarrow> 30)"

section \<open>The page: \<^verbatim>\<open>Home\<close>\<close>

text \<open>
  Every call of a hook has its own cells. \<^verbatim>\<open>Home\<close> mounts \<^verbatim>\<open>BackgroundElements\<close> (15
  \<^verbatim>\<open>ParallaxElement\<close>), \<^verbatim>\<open>HapticToggle\<close> and \<^verbatim>\<open>HeroParallax\<close>: 16 calls of
  \<^verbatim>\<open>useTouchPosition\<close> (through \<^verbatim>\<open>useInteractionPosition\<close>), each with its own
  \<^verbatim>\<open>useHapticFeedback\<close> and \<^verbatim>\<open>useOptimizedAnimation\<close>, and the call of
  \<^verbatim>\<open>useHapticFeedback\<close> in \<^verbatim>\<open>HapticToggle\<close>. All of them share the browser.

  Each touch hook registers its own listeners on \<^verbatim>\<open>window\<close>: a touch event runs the
  handler of every hook in turn, at the same reading of the clock.
\<close>

fun window_dispatch ::
  "touch_event \<Rightarrow> (haptic \<times> animation_policy \<times> touch_state) list \<Rightarrow> browser
     \<Rightarrow> (haptic \<times> animation_policy \<times> touch_state) list \<times> browser" where
  "window_dispatch ev [] w = ([], w)"
| "window_dispatch ev ((h, p, s) # hooks) w =
     (let (s', w') = touch_step h p (s, w) ev;
          (hooks', w'') = window_dispatch ev hooks w'
      in ((h, p, s') # hooks', w''))"

text \<open>
  The cells of the page the haptic claims need: those of \<^verbatim>\<open>HapticToggle\<close>'s
  \<^verbatim>\<open>useHapticFeedback\<close>, and for every touch hook its haptic cells, its policy and its
  own cells.
\<close>

record home =
  hapticToggle :: haptic
  touchHooks :: "(haptic \<times> animation_policy \<times> touch_state) list"
  world :: browser

text \<open>
  The page after its mount effects, for a viewport \<open>width\<close> wide and a browser \<open>w\<close>: every
  \<^verbatim>\<open>useHapticFeedback\<close> has run \<^verbatim>\<open>checkSupport\<close> and read the saved preference, every
  policy has run its effect at level high.
\<close>

definition Home_mount :: "int \<Rightarrow> bool \<Rightarrow> bool \<Rightarrow> browser \<Rightarrow> home" where
  "Home_mount width ontouchstart canVibrate w =
     (let h = useHapticFeedback_mount width ontouchstart canVibrate w useHapticFeedback_init;
          p = useOptimizedAnimation_effect High True width (useOptimizedAnimation_init True)
      in \<lparr>hapticToggle = h,
          touchHooks = replicate 16 (h, p, useTouchPosition_init),
          world = w\<rparr>)"

text \<open>
  A click on the button of \<^verbatim>\<open>HapticToggle\<close>, which is rendered on a mobile-class device
  with vibration support only (its own \<^verbatim>\<open>isMobile\<close> cell is computed as the hook's is):
  \<^verbatim>\<open>toggleHaptics\<close> of that component's hook call. It writes that call's cells and
  \<^verbatim>\<open>localStorage\<close>, which the other calls read at mount only.
\<close>

definition HapticToggle_click :: "home \<Rightarrow> home" where
  "HapticToggle_click pg =
     (if isMobile (hapticToggle pg) \<and> isSupported (hapticToggle pg)
      then (let (h', w') = toggleHaptics (hapticToggle pg) (world pg)
            in pg\<lparr>hapticToggle := h', world := w'\<rparr>)
      else pg)"

text \<open>A touch event on the page.\<close>

definition Home_touch :: "touch_event \<Rightarrow> home \<Rightarrow> home" where
  "Home_touch ev pg =
     (let (hooks', w') = window_dispatch ev (touchHooks pg) (world pg)
      in pg\<lparr>touchHooks := hooks', world := w'\<rparr>)"

section \<open>Lemmas on the sampler\<close>

lemma foldl_plus_sum_list: "foldl (+) (a::int) h = a + sum_list h"
  by (induction h arbitrary: a) simp_all

lemma history_mean_sum_list:
  "history_mean h = real_of_int (sum_list h) / real (length h)"
  by (simp add: history_mean_def foldl_plus_sum_list)

lemma length_last10: "length (last10 ws) = min 10 (length ws)"
  by (simp add: last10_def)

lemma last10_snoc:
  "last10 (ws @ [w]) =
     (if length (last10 ws @ [w]) > 10 then tl (last10 ws @ [w]) else last10 ws @ [w])"
proof (cases "length ws < 10")
  case True
  then show ?thesis by (simp add: last10_def)
next
  case False
  then have "length ws - 10 + 1 = Suc (length ws) - 10" by simp
  with False show ?thesis
    by (simp add: last10_def tl_drop drop_Suc [symmetric] min_def)
qed

lemma fpsHistory_measureFPS:
  "fpsHistory (measureFPS now s) =
     (if now - lastTime s \<ge> 1000
      then (let pushed = fpsHistory s @ [fps (measureFPS now s)]
            in if length pushed > 10 then tl pushed else pushed)
      else fpsHistory s)"
  by (simp add: measureFPS_def Let_def)

lemma fpsHistory_run_frames:
  "fpsHistory s = last10 hs \<Longrightarrow>
   fpsHistory (run_frames s ts) = last10 (hs @ window_samples s ts)"
proof (induction ts arbitrary: s hs)
  case Nil
  then show ?case by simp
next
  case (Cons now ts)
  show ?case
  proof (cases "now - lastTime s \<ge> 1000")
    case True
    let ?w = "fps (measureFPS now s)"
    have "fpsHistory (measureFPS now s) = last10 (hs @ [?w])"
      using True Cons.prems
      by (simp add: fpsHistory_measureFPS Let_def last10_snoc [of hs])
    from Cons.IH [OF this] True show ?thesis by simp
  next
    case False
    then have "fpsHistory (measureFPS now s) = last10 hs"
      using Cons.prems by (simp add: fpsHistory_measureFPS)
    from Cons.IH [OF this] False show ?thesis by simp
  qed
qed

lemma performanceLevel_measureFPS:
  "performanceLevel (measureFPS now s) =
     (if now - lastTime s \<ge> 1000
      then level_of (history_mean (fpsHistory (measureFPS now s)))
      else performanceLevel s)"
  by (simp add: measureFPS_def Let_def)

lemma performanceLevel_run_frames:
  "window_samples s ts \<noteq> [] \<or> performanceLevel s = level_of (history_mean (fpsHistory s))
   \<Longrightarrow> performanceLevel (run_frames s ts)
         = level_of (history_mean (fpsHistory (run_frames s ts)))"
proof (induction ts arbitrary: s)
  case Nil
  then show ?case by simp
next
  case (Cons now ts)
  show ?case
  proof (cases "now - lastTime s \<ge> 1000")
    case True
    then have "performanceLevel (measureFPS now s)
                 = level_of (history_mean (fpsHistory (measureFPS now s)))"
      by (simp add: performanceLevel_measureFPS)
    then show ?thesis using Cons.IH [of "measureFPS now s"] by simp
  next
    case False
    then have same: "performanceLevel (measureFPS now s) = performanceLevel s"
      "fpsHistory (measureFPS now s) = fpsHistory s"
      by (simp_all add: measureFPS_def Let_def)
    from Cons.prems False same show ?thesis
      using Cons.IH [of "measureFPS now s"] by auto
  qed
qed

lemma run_frames_within_window:
  "\<forall>t \<in> set ts. t - lastTime s < 1000 \<Longrightarrow>
   run_frames s ts = s\<lparr>frameCount := frameCount s + int (length ts)\<rparr>"
proof (induction ts arbitrary: s)
  case Nil
  then show ?case by simp
next
  case (Cons now ts)
  then have step: "measureFPS now s = s\<lparr>frameCount := frameCount s + 1\<rparr>"
    by (simp add: measureFPS_def Let_def)
  with Cons.prems have "\<forall>t \<in> set ts. t - lastTime (measureFPS now s) < 1000"
    by simp
  from Cons.IH [OF this] step show ?case by simp
qed

section \<open>The frame-rate sampler and the animation policy\<close>

text \<open>
  Claim C2. Take any sequence of runs of the per-frame callback after mount, and let \<open>ws\<close>
  be the per-window FPS values it measured (\<open>n\<close> of them). The stored history is the last
  \<open>min 10 n\<close> of them, so it never holds more than 10 samples; the rolling average
  computed in \<^verbatim>\<open>measureFPS\<close> is their arithmetic mean; and as soon as one window has
  completed, the performance level is the step function of that average: High from 55,
  Medium from 35, Low below.
\<close>

theorem rolling_average_and_tier:
  "let s = run_frames (usePerformanceMonitor_init t0) ts;
       ws = window_samples (usePerformanceMonitor_init t0) ts;
       recent = last10 ws
   in fpsHistory s = recent
    \<and> length recent = min 10 (length ws)
    \<and> length (fpsHistory s) \<le> 10
    \<and> (ws \<noteq> [] \<longrightarrow>
         history_mean (fpsHistory s) = real_of_int (sum_list recent) / real (length recent)
       \<and> performanceLevel s =
           (if history_mean (fpsHistory s) \<ge> 55 then High
            else if history_mean (fpsHistory s) \<ge> 35 then Medium
            else Low))"
proof -
  let ?i = "usePerformanceMonitor_init t0"
  have hist: "fpsHistory (run_frames ?i ts) = last10 (window_samples ?i ts)"
    using fpsHistory_run_frames [of ?i "[]" ts]
    by (simp add: usePerformanceMonitor_init_def last10_def)
  have len: "length (last10 (window_samples ?i ts)) = min 10 (length (window_samples ?i ts))"
    by (rule length_last10)
  have lvl: "window_samples ?i ts \<noteq> [] \<Longrightarrow>
      performanceLevel (run_frames ?i ts)
        = level_of (history_mean (fpsHistory (run_frames ?i ts)))"
    by (rule performanceLevel_run_frames) simp
  show ?thesis
    unfolding Let_def
    using hist len lvl
    by (simp add: history_mean_sum_list level_of_def)
qed

theorem rolling_average_and_tier_witness:
  "window_samples (usePerformanceMonitor_init 0) [500, 1000, 1400, 2000] = [2, 2]
   \<and> fpsHistory (run_frames (usePerformanceMonitor_init 0) [500, 1000, 1400, 2000]) = [2, 2]
   \<and> performanceLevel (run_frames (usePerformanceMonitor_init 0) [500, 1000, 1400, 2000]) = Low"
  using rolling_average_and_tier [of 0 "[500, 1000, 1400, 2000]"]
  by (simp add: Let_def usePerformanceMonitor_init_def measureFPS_def Math_round_def
      level_of_def history_mean_def last10_def)

text \<open>
  Claim C3. The policy effect computes its result from the performance level, the enabled
  flag and the viewport width alone, whatever the cells held before: the quality is 1 for
  High, 0.7 for Medium and 0.4 for Low, and animation is off exactly when the flag is off
  or the level is Low on a viewport at most 768 wide.
\<close>

theorem animation_policy_pure:
  "useOptimizedAnimation_effect level enabled innerWidth p =
     \<lparr>shouldAnimate = (\<not> (\<not> enabled \<or> (level = Low \<and> innerWidth \<le> 768))),
      animationQuality = (case level of High \<Rightarrow> 1 | Medium \<Rightarrow> 7 / 10 | Low \<Rightarrow> 4 / 10)\<rparr>"
  by (cases level; cases p) (auto simp: useOptimizedAnimation_effect_def)

theorem animation_policy_pure_witness:
  "useOptimizedAnimation_effect Low True 768 (useOptimizedAnimation_init True) =
     \<lparr>shouldAnimate = False, animationQuality = 4 / 10\<rparr>
   \<and> useOptimizedAnimation_effect Low True 769 (useOptimizedAnimation_init True) =
     \<lparr>shouldAnimate = True, animationQuality = 4 / 10\<rparr>
   \<and> useOptimizedAnimation_effect Medium False 1024 (useOptimizedAnimation_init True) =
     \<lparr>shouldAnimate = False, animationQuality = 7 / 10\<rparr>"
  using animation_policy_pure [of Low True 768 "useOptimizedAnimation_init True"]
    animation_policy_pure [of Low True 769 "useOptimizedAnimation_init True"]
    animation_policy_pure [of Medium False 1024 "useOptimizedAnimation_init True"]
  by simp

text \<open>
  Claim C10. As long as no callback has run 1000 ms or more after mount, the history is
  empty, the exposed average is exactly 60 and the level is High, so that the policy
  effect gives quality 1 and leaves animation to the enabled flag.
\<close>

theorem initial_average_and_tier:
  "\<forall>t \<in> set ts. t - t0 < 1000 \<Longrightarrow>
   (let s = run_frames (usePerformanceMonitor_init t0) ts
    in fpsHistory s = [] \<and> avgFPS s = 60 \<and> performanceLevel s = High
     \<and> animationQuality (useOptimizedAnimation_effect (performanceLevel s) enabled w p) = 1
     \<and> shouldAnimate (useOptimizedAnimation_effect (performanceLevel s) enabled w p) = enabled)"
proof -
  assume "\<forall>t \<in> set ts. t - t0 < 1000"
  then have "\<forall>t \<in> set ts. t - lastTime (usePerformanceMonitor_init t0) < 1000"
    by (simp add: usePerformanceMonitor_init_def)
  from run_frames_within_window [OF this] show ?thesis
    by (simp add: Let_def usePerformanceMonitor_init_def avgFPS_def
        useOptimizedAnimation_effect_def)
qed

theorem initial_average_and_tier_witness:
  "(16 :: real) - 0 < 1000 \<and> (33 :: real) - 0 < 1000 \<and> (999 :: real) - 0 < 1000
   \<and> avgFPS (run_frames (usePerformanceMonitor_init 0) [16, 33, 999]) = 60
   \<and> performanceLevel (run_frames (usePerformanceMonitor_init 0) [16, 33, 999]) = High"
proof -
  have h: "\<forall>t \<in> set [16, 33, 999 :: real]. t - 0 < 1000" by simp
  from initial_average_and_tier [OF h] h show ?thesis by (simp add: Let_def)
qed

section \<open>Pointer fusion\<close>

text \<open>
  Claim C1. Let the two cells of the hook be those \<^verbatim>\<open>checkDevice\<close> writes for a viewport
  \<open>width\<close> \<open>\<times>\<close> \<open>height\<close>, and let \<open>m\<close> be 0.7 below 400 pixels of width, 0.85 below 768
  and 1 from there on. On a mobile-class device (width below 768, or touch-capable) the
  hook returns the smoothed touch position times \<open>m\<close> while a touch is active, whatever
  the orientation hook holds; otherwise, if orientation is supported, the smoothed
  orientation times \<open>(0.15, 0.10)\<close> times \<open>m\<close>; otherwise exactly \<open>(0, 0)\<close>. On any other
  device it returns the value of the mouse hook unchanged.
\<close>

theorem pointer_fusion_precedence:
  "let device = checkDevice width height ontouchstart;
       m = (if width < 400 then 7 / 10 else if width < 768 then 85 / 100 else 1);
       out = useInteractionPosition mousePosition touchPos touchActive orientation
               orientationSupported device
   in (width < 768 \<or> ontouchstart \<longrightarrow>
         (touchActive \<longrightarrow> out = (fst touchPos * m, snd touchPos * m))
       \<and> (\<not> touchActive \<and> orientationSupported \<longrightarrow>
            out = (fst orientation * (15 / 100) * m, fst (snd orientation) * (10 / 100) * m))
       \<and> (\<not> touchActive \<and> \<not> orientationSupported \<longrightarrow> out = (0, 0)))
    \<and> (\<not> (width < 768 \<or> ontouchstart) \<longrightarrow> out = mousePosition)"
  by (simp add: Let_def checkDevice_def useInteractionPosition_def getScreenSizeMultiplier_def)

theorem pointer_fusion_precedence_witness:
  "useInteractionPosition (3, 4) (1 / 2, - (1 / 5)) True (1, 1, 1) True (checkDevice 390 800 True)
     = (35 / 100, - (14 / 100))
   \<and> useInteractionPosition (3, 4) (1 / 2, - (1 / 5)) False (1, 1, 1) True (checkDevice 600 800 False)
     = (1275 / 10000, 85 / 1000)
   \<and> useInteractionPosition (3, 4) (1 / 2, - (1 / 5)) False (1, 1, 1) False (checkDevice 1024 800 True)
     = (0, 0)
   \<and> useInteractionPosition (3, 4) (1 / 2, - (1 / 5)) True (1, 1, 1) True (checkDevice 1024 800 False)
     = (3, 4)"
  using pointer_fusion_precedence [of 390 800 True "(3, 4)" "(1 / 2, - (1 / 5))" True "(1, 1, 1)" True]
    pointer_fusion_precedence [of 600 800 False "(3, 4)" "(1 / 2, - (1 / 5))" False "(1, 1, 1)" True]
    pointer_fusion_precedence [of 1024 800 True "(3, 4)" "(1 / 2, - (1 / 5))" False "(1, 1, 1)" False]
    pointer_fusion_precedence [of 1024 800 False "(3, 4)" "(1 / 2, - (1 / 5))" True "(1, 1, 1)" True]
  by (simp add: Let_def)

text \<open>
  The value of the mouse hook after a processed \<^verbatim>\<open>mousemove\<close> is the offset from the
  centre of the viewport, divided by its size and multiplied by the quality factor; off
  mobile this is what the fusion returns.
\<close>

lemma desktop_mouse_offset:
  "\<not> (width < 768 \<or> ontouchstart) \<Longrightarrow>
   useInteractionPosition (mouseMove_frame q width height client) touchPos touchActive
       orientation orientationSupported (checkDevice width height ontouchstart)
     = (((fst client - real_of_int width / 2) / real_of_int width) * q,
        ((snd client - real_of_int height / 2) / real_of_int height) * q)"
  by (simp add: useInteractionPosition_def checkDevice_def mouseMove_frame_def Let_def)

section \<open>Transform compositor\<close>

lemma clamp_abs: "0 \<le> (m::real) \<Longrightarrow> \<bar>max (- m) (min m v)\<bar> \<le> m"
  by (simp add: abs_le_iff max_def min_def)

lemma maxMovement_maxDisplacement: "maxMovement sz q = maxDisplacement sz * q"
  by (cases sz) (simp_all add: maxMovement_def maxDisplacement_def)

lemma animationQuality_nonneg:
  "0 \<le> animationQuality (useOptimizedAnimation_init enabled)"
  "0 \<le> animationQuality (useOptimizedAnimation_effect level enabled w p)"
  by (cases level; simp add: useOptimizedAnimation_init_def useOptimizedAnimation_effect_def)+

text \<open>
  Claim C4. Whenever the element is rendered with a transform, for any interaction
  vector, interaction speed, scroll offset and size class and any quality factor (a
  number from 0 on, as all those of the policy are), the interaction part of the
  translation is at most \<open>maxDisplacement size * qualityFactor\<close> in absolute value on
  each axis; on the vertical axis the scroll offset is added to it.
\<close>

theorem displacement_clamped:
  assumes "0 \<le> animationQuality p"
    and "ParallaxElement sz interactionSpeed p level isInView scrollOffset interactionPosition
           = Some (tx, ty)"
  shows "\<bar>tx\<bar> \<le> maxDisplacement sz * animationQuality p
       \<and> \<bar>ty - scrollOffset\<bar> \<le> maxDisplacement sz * animationQuality p"
proof -
  let ?m = "maxMovement sz (animationQuality p)"
  have m: "0 \<le> ?m"
    using assms(1) by (simp add: maxMovement_def)
  from assms(2) obtain vx vy where
    tx: "tx = max (- ?m) (min ?m vx)" and ty: "ty = scrollOffset + max (- ?m) (min ?m vy)"
    by (auto simp: ParallaxElement_def Let_def split: if_splits)
  from tx ty clamp_abs [OF m] show ?thesis
    by (simp add: maxMovement_maxDisplacement)
qed

theorem displacement_clamped_witness:
  "0 \<le> animationQuality (useOptimizedAnimation_effect Medium True 1024 (useOptimizedAnimation_init True))
   \<and> ParallaxElement SizeSmall (18 / 100)
       (useOptimizedAnimation_effect Medium True 1024 (useOptimizedAnimation_init True))
       Medium True 100 (100, - 100) = Some (42, 58)
   \<and> \<bar>42 :: real\<bar> \<le> maxDisplacement SizeSmall
         * animationQuality (useOptimizedAnimation_effect Medium True 1024 (useOptimizedAnimation_init True))
   \<and> \<bar>58 - 100 :: real\<bar> \<le> maxDisplacement SizeSmall
         * animationQuality (useOptimizedAnimation_effect Medium True 1024 (useOptimizedAnimation_init True))"
proof -
  let ?p = "useOptimizedAnimation_effect Medium True 1024 (useOptimizedAnimation_init True)"
  have q: "0 \<le> animationQuality ?p"
    by (simp add: useOptimizedAnimation_effect_def)
  have t: "ParallaxElement SizeSmall (18 / 100) ?p Medium True 100 (100, - 100) = Some (42, 58)"
    by (simp add: ParallaxElement_def Let_def useOptimizedAnimation_effect_def
        useOptimizedAnimation_init_def getSizeMultiplier_def maxMovement_def)
  from displacement_clamped [OF q t] q t show ?thesis by simp
qed

section \<open>Haptic feedback\<close>

text \<open>
  The gate of one hook call. For every pattern, \<^verbatim>\<open>vibrate\<close> leaves the browser as it is, so makes no call
  to \<^verbatim>\<open>navigator.vibrate\<close>, when the capability cell is off, when the mobile cell is off,
  and when the preference is off, each on its own. \<^verbatim>\<open>checkSupport\<close> turns the capability
  cell off on a platform without \<^verbatim>\<open>navigator.vibrate\<close> and the mobile cell off on a wide
  viewport without touch.
\<close>

lemma vibrate_gated:
  "(\<not> isSupported h \<longrightarrow> vibrate h pat w = w)
   \<and> (\<not> isMobile h \<longrightarrow> vibrate h pat w = w)
   \<and> (\<not> isEnabled h \<longrightarrow> vibrate h pat w = w)
   \<and> vibrate (checkSupport width ontouchstart False h) pat w = w
   \<and> (\<not> (width < 768 \<or> ontouchstart) \<longrightarrow>
        vibrate (checkSupport width ontouchstart canVibrate h) pat w = w)"
  by (simp add: vibrate_def checkSupport_def Let_def)

lemma vibrate_gated_example:
  "vibrations (vibrate \<lparr>isSupported = False, isEnabled = True, isMobile = True\<rparr> (Pulse 12)
      \<lparr>clock = 5, localStorage = Map.empty, vibrations = []\<rparr>) = []
   \<and> vibrations (vibrate \<lparr>isSupported = True, isEnabled = True, isMobile = False\<rparr> (Pulse 12)
      \<lparr>clock = 5, localStorage = Map.empty, vibrations = []\<rparr>) = []
   \<and> vibrations (vibrate \<lparr>isSupported = True, isEnabled = False, isMobile = True\<rparr> (Pulse 12)
      \<lparr>clock = 5, localStorage = Map.empty, vibrations = []\<rparr>) = []
   \<and> vibrations (vibrate (checkSupport 1024 False True useHapticFeedback_init) (Pulse 12)
      \<lparr>clock = 5, localStorage = Map.empty, vibrations = []\<rparr>) = []"
  using vibrate_gated [of "\<lparr>isSupported = False, isEnabled = True, isMobile = True\<rparr>" "Pulse 12"
      "\<lparr>clock = 5, localStorage = Map.empty, vibrations = []\<rparr>"]
    vibrate_gated [of "\<lparr>isSupported = True, isEnabled = True, isMobile = False\<rparr>" "Pulse 12"
      "\<lparr>clock = 5, localStorage = Map.empty, vibrations = []\<rparr>"]
    vibrate_gated [of "\<lparr>isSupported = True, isEnabled = False, isMobile = True\<rparr>" "Pulse 12"
      "\<lparr>clock = 5, localStorage = Map.empty, vibrations = []\<rparr>"]
    vibrate_gated [of useHapticFeedback_init "Pulse 12"
      "\<lparr>clock = 5, localStorage = Map.empty, vibrations = []\<rparr>" 1024 False True]
  by simp

text \<open>With all three cells on, the call is made.\<close>

lemma vibrate_open:
  "isSupported h \<Longrightarrow> isEnabled h \<Longrightarrow> isMobile h \<Longrightarrow>
   vibrations (vibrate h pat w) = vibrations w @ [(clock w, pat)]"
  by (simp add: vibrate_def)

lemma toggleHaptics_flips_and_persists:
  "isEnabled (fst (toggleHaptics h w)) = (\<not> isEnabled h)
   \<and> localStorage (snd (toggleHaptics h w)) ''haptic-feedback''
       = Some (if isEnabled h then ''false'' else ''true'')"
  by (simp add: toggleHaptics_def Let_def vibrate_def)

lemma toggleHaptics_never_vibrates:
  "vibrations (snd (toggleHaptics h w)) = vibrations w"
  by (simp add: toggleHaptics_def Let_def vibrate_def)

text \<open>
  Claim C7, on a capable mobile-class device with the preference disabled:
  \<^verbatim>\<open>toggleHaptics()\<close> enables the preference and persists \<^verbatim>\<open>"true"\<close>, and makes no call to
  \<^verbatim>\<open>navigator.vibrate\<close>. The confirmation \<^verbatim>\<open>vibrate(15)\<close> is attempted, and stopped by the
  gate of \<^verbatim>\<open>vibrate\<close>, which still reads the preference as disabled.
\<close>

theorem toggleHaptics_enabling_fires_no_pulse:
  "isEnabled (fst (toggleHaptics \<lparr>isSupported = True, isEnabled = False, isMobile = True\<rparr>
       \<lparr>clock = 5, localStorage = [''haptic-feedback'' \<mapsto> ''false''], vibrations = []\<rparr>))
   \<and> localStorage (snd (toggleHaptics \<lparr>isSupported = True, isEnabled = False, isMobile = True\<rparr>
       \<lparr>clock = 5, localStorage = [''haptic-feedback'' \<mapsto> ''false''], vibrations = []\<rparr>))
       ''haptic-feedback'' = Some ''true''
   \<and> vibrations (snd (toggleHaptics \<lparr>isSupported = True, isEnabled = False, isMobile = True\<rparr>
       \<lparr>clock = 5, localStorage = [''haptic-feedback'' \<mapsto> ''false''], vibrations = []\<rparr>)) = []"
  by (simp add: toggleHaptics_def Let_def vibrate_def)

section \<open>Visibility tracker\<close>

lemma observer_step_isVisible: "isVisible s \<Longrightarrow> isVisible (observer_step s ev)"
  by (cases ev) (simp_all add: observer_callback_def useScrollAnimation_effect_def)

lemma observer_run_isVisible: "isVisible s \<Longrightarrow> isVisible (observer_run s evs)"
  unfolding observer_run_def
  by (induction evs arbitrary: s) (simp_all add: observer_step_isVisible)

text \<open>
  Claim C9. Once \<^verbatim>\<open>isVisible\<close> is true it stays true under every sequence of
  intersection changes and level changes; and the callback that reports the first
  intersection sets it and detaches the observer.
\<close>

theorem revealed_never_reverts:
  "(isVisible s \<longrightarrow> isVisible (observer_run s evs))
   \<and> (observing s \<longrightarrow>
        isVisible (observer_step s (Intersection True))
      \<and> \<not> observing (observer_step s (Intersection True)))"
  by (simp add: observer_run_isVisible observer_callback_def)

theorem revealed_never_reverts_witness:
  "isVisible (observer_run (useScrollAnimation_effect High useScrollAnimation_init)
      [Intersection False, Intersection True])
   \<and> \<not> observing (observer_run (useScrollAnimation_effect High useScrollAnimation_init)
      [Intersection False, Intersection True])
   \<and> isVisible (observer_run (observer_run (useScrollAnimation_effect High useScrollAnimation_init)
      [Intersection False, Intersection True]) [LevelChange Low, Intersection False])"
proof -
  let ?s0 = "useScrollAnimation_effect High useScrollAnimation_init"
  let ?s1 = "observer_run ?s0 [Intersection False]"
  have run1: "observer_run ?s0 [Intersection False, Intersection True]
                = observer_step ?s1 (Intersection True)"
    by (simp add: observer_run_def)
  have obs: "observing ?s1"
    by (simp add: observer_run_def useScrollAnimation_effect_def observer_callback_def)
  from revealed_never_reverts [of ?s1 "[]"] obs
  have vis: "isVisible (observer_step ?s1 (Intersection True))"
    and det: "\<not> observing (observer_step ?s1 (Intersection True))"
    by simp_all
  from revealed_never_reverts [of "observer_step ?s1 (Intersection True)"
      "[LevelChange Low, Intersection False]"] vis
  have "isVisible (observer_run (observer_step ?s1 (Intersection True))
      [LevelChange Low, Intersection False])"
    by simp
  with vis det run1 show ?thesis by simp
qed

section \<open>Touch release\<close>

lemma decay_tick_cases:
  "decayIntervals s = 0 \<and> decay_tick s = s
   \<or> decayIntervals s > 0
     \<and> \<bar>fst (touchPosition s) * (92 / 100)\<bar> < 1 / 100
     \<and> \<bar>snd (touchPosition s) * (92 / 100)\<bar> < 1 / 100
     \<and> touchPosition (decay_tick s) = (0, 0)
     \<and> decayIntervals (decay_tick s) = decayIntervals s - 1
   \<or> decayIntervals s > 0
     \<and> \<not> (\<bar>fst (touchPosition s) * (92 / 100)\<bar> < 1 / 100
          \<and> \<bar>snd (touchPosition s) * (92 / 100)\<bar> < 1 / 100)
     \<and> touchPosition (decay_tick s)
          = (fst (touchPosition s) * (92 / 100), snd (touchPosition s) * (92 / 100))
     \<and> decayIntervals (decay_tick s) = decayIntervals s"
  by (simp add: decay_tick_def Let_def)

lemma decay_tick_idle: "decayIntervals s = 0 \<Longrightarrow> decay_tick s = s"
  by (simp add: decay_tick_def)

lemma decay_tick_abs:
  "\<bar>fst (touchPosition (decay_tick s))\<bar> \<le> \<bar>fst (touchPosition s)\<bar>"
  "\<bar>snd (touchPosition (decay_tick s))\<bar> \<le> \<bar>snd (touchPosition s)\<bar>"
  using decay_tick_cases [of s] by (auto simp: abs_mult)

lemma decay_tick_norm:
  "sqrt ((fst (touchPosition (decay_tick s)))\<^sup>2 + (snd (touchPosition (decay_tick s)))\<^sup>2)
     \<le> sqrt ((fst (touchPosition s))\<^sup>2 + (snd (touchPosition s))\<^sup>2)"
proof -
  have "(fst (touchPosition (decay_tick s)))\<^sup>2 \<le> (fst (touchPosition s))\<^sup>2"
    "(snd (touchPosition (decay_tick s)))\<^sup>2 \<le> (snd (touchPosition s))\<^sup>2"
    using decay_tick_abs [of s] by (simp_all add: abs_le_square_iff)
  then show ?thesis by simp
qed

lemma decay_tick_small:
  assumes "decayIntervals s > 0"
    and "\<bar>fst (touchPosition s)\<bar> < 1 / 100" and "\<bar>snd (touchPosition s)\<bar> < 1 / 100"
  shows "touchPosition (decay_tick s) = (0, 0)
       \<and> decayIntervals (decay_tick s) = decayIntervals s - 1"
proof -
  have "\<bar>fst (touchPosition s) * (92 / 100)\<bar> \<le> \<bar>fst (touchPosition s)\<bar>"
    "\<bar>snd (touchPosition s) * (92 / 100)\<bar> \<le> \<bar>snd (touchPosition s)\<bar>"
    by (simp_all add: abs_mult)
  with assms(2,3) have "\<bar>fst (touchPosition s) * (92 / 100)\<bar> < 1 / 100"
    "\<bar>snd (touchPosition s) * (92 / 100)\<bar> < 1 / 100"
    by linarith+
  with assms(1) decay_tick_cases [of s] show ?thesis by auto
qed

lemma decay_reaches_origin:
  "decayIntervals s > 0 \<Longrightarrow>
   \<bar>fst (touchPosition s)\<bar> * (92 / 100) ^ m < 1 / 100 \<Longrightarrow>
   \<bar>snd (touchPosition s)\<bar> * (92 / 100) ^ m < 1 / 100 \<Longrightarrow>
   \<exists>n. touchPosition ((decay_tick ^^ n) s) = (0, 0)
     \<and> decayIntervals ((decay_tick ^^ n) s) = decayIntervals s - 1"
proof (induction m arbitrary: s)
  case 0
  then have "touchPosition ((decay_tick ^^ 1) s) = (0, 0)
     \<and> decayIntervals ((decay_tick ^^ 1) s) = decayIntervals s - 1"
    using decay_tick_small [of s] by simp
  then show ?case by blast
next
  case (Suc m)
  consider
    (snap) "touchPosition (decay_tick s) = (0, 0)"
      "decayIntervals (decay_tick s) = decayIntervals s - 1"
  | (go) "touchPosition (decay_tick s)
          = (fst (touchPosition s) * (92 / 100), snd (touchPosition s) * (92 / 100))"
      "decayIntervals (decay_tick s) = decayIntervals s"
    using decay_tick_cases [of s] Suc.prems(1) by auto
  then show ?case
  proof cases
    case snap
    then have "touchPosition ((decay_tick ^^ 1) s) = (0, 0)
       \<and> decayIntervals ((decay_tick ^^ 1) s) = decayIntervals s - 1"
      by simp
    then show ?thesis by blast
  next
    case go
    from go Suc.prems have
      "decayIntervals (decay_tick s) > 0"
      "\<bar>fst (touchPosition (decay_tick s))\<bar> * (92 / 100) ^ m < 1 / 100"
      "\<bar>snd (touchPosition (decay_tick s))\<bar> * (92 / 100) ^ m < 1 / 100"
      by (simp_all add: abs_mult mult.assoc)
    from Suc.IH [OF this] obtain n where
      "touchPosition ((decay_tick ^^ n) (decay_tick s)) = (0, 0)
       \<and> decayIntervals ((decay_tick ^^ n) (decay_tick s)) = decayIntervals (decay_tick s) - 1"
      by blast
    with go have "touchPosition ((decay_tick ^^ Suc n) s) = (0, 0)
       \<and> decayIntervals ((decay_tick ^^ Suc n) s) = decayIntervals s - 1"
      by (simp add: funpow_swap1)
    then show ?thesis by blast
  qed
qed

lemma decay_power_small: "\<exists>m. (a::real) * (92 / 100) ^ m < 1 / 100"
proof (cases "a \<le> 0")
  case True
  then have "a * (92 / 100) ^ 0 < 1 / 100" by simp
  then show ?thesis by blast
next
  case False
  then have "0 < 1 / 100 / a" by simp
  then obtain m where "(92 / 100 :: real) ^ m < 1 / 100 / a"
    using real_arch_pow_inv [of "1 / 100 / a" "92 / 100"] by auto
  with False have "a * (92 / 100) ^ m < 1 / 100"
    by (simp add: field_simps)
  then show ?thesis by blast
qed

lemma decay_power_mono:
  "(a::real) * (92 / 100) ^ m < 1 / 100 \<Longrightarrow> 0 \<le> a \<Longrightarrow> m \<le> k \<Longrightarrow> a * (92 / 100) ^ k < 1 / 100"
proof -
  assume a: "a * (92 / 100) ^ m < 1 / 100" "0 \<le> a" "m \<le> k"
  have "(92 / 100 :: real) ^ k \<le> (92 / 100) ^ m"
    using a(3) by (intro power_decreasing) simp_all
  with a(2) have "a * (92 / 100) ^ k \<le> a * (92 / 100) ^ m"
    by (rule mult_left_mono [rotated])
  with a(1) show ?thesis by linarith
qed

lemma decay_at_origin:
  "touchPosition s = (0, 0) \<Longrightarrow>
   touchPosition ((decay_tick ^^ n) s) = (0, 0)
   \<and> decayIntervals ((decay_tick ^^ n) s) = decayIntervals s - n"
proof (induction n)
  case 0
  then show ?case by simp
next
  case (Suc n)
  let ?t = "(decay_tick ^^ n) s"
  from Suc have t: "touchPosition ?t = (0, 0)" "decayIntervals ?t = decayIntervals s - n"
    by simp_all
  show ?case
  proof (cases "decayIntervals ?t = 0")
    case True
    with t decay_tick_idle [of ?t] show ?thesis by simp
  next
    case False
    with t decay_tick_small [of ?t] show ?thesis by simp
  qed
qed

lemma decay_stops:
  "decayIntervals s > 0 \<Longrightarrow>
   \<exists>N. \<forall>n \<ge> N. touchPosition ((decay_tick ^^ n) s) = (0, 0)
              \<and> decayIntervals ((decay_tick ^^ n) s) = 0"
proof -
  assume run: "decayIntervals s > 0"
  obtain m1 where m1: "\<bar>fst (touchPosition s)\<bar> * (92 / 100) ^ m1 < 1 / 100"
    using decay_power_small by blast
  obtain m2 where m2: "\<bar>snd (touchPosition s)\<bar> * (92 / 100) ^ m2 < 1 / 100"
    using decay_power_small by blast
  have "\<bar>fst (touchPosition s)\<bar> * (92 / 100) ^ max m1 m2 < 1 / 100"
    "\<bar>snd (touchPosition s)\<bar> * (92 / 100) ^ max m1 m2 < 1 / 100"
    using decay_power_mono [OF m1, of "max m1 m2"] decay_power_mono [OF m2, of "max m1 m2"]
    by simp_all
  from decay_reaches_origin [OF run this] obtain n1 where
    n1: "touchPosition ((decay_tick ^^ n1) s) = (0, 0)"
    by blast
  let ?t = "(decay_tick ^^ n1) s"
  have "\<forall>n \<ge> n1 + decayIntervals ?t.
          touchPosition ((decay_tick ^^ n) s) = (0, 0)
        \<and> decayIntervals ((decay_tick ^^ n) s) = 0"
  proof (intro allI impI)
    fix n assume n: "n1 + decayIntervals ?t \<le> n"
    then have "n = (n - n1) + n1" by simp
    then have "(decay_tick ^^ n) s = (decay_tick ^^ (n - n1)) ?t"
      by (metis funpow_add comp_apply)
    with decay_at_origin [OF n1, of "n - n1"] n
    show "touchPosition ((decay_tick ^^ n) s) = (0, 0)
        \<and> decayIntervals ((decay_tick ^^ n) s) = 0"
      by simp
  qed
  then show ?thesis by blast
qed

text \<open>
  Claim C5. After a release, for every position the touch had at that moment: each tick
  of the release timer multiplies both components by 0.92 or snaps to the origin, so the
  magnitude of each component, and the length of the vector, never grows; a tick that
  finds both components below 0.01 in magnitude makes the position exactly \<open>(0, 0)\<close> and
  clears its timer; and after finitely many ticks the position is \<open>(0, 0)\<close> and no timer
  is left, for good.
\<close>

theorem release_decay:
  "(\<forall>n. \<bar>fst (touchPosition (release_sequence h sw (Suc n)))\<bar>
           \<le> \<bar>fst (touchPosition (release_sequence h sw n))\<bar>
       \<and> \<bar>snd (touchPosition (release_sequence h sw (Suc n)))\<bar>
           \<le> \<bar>snd (touchPosition (release_sequence h sw n))\<bar>
       \<and> sqrt ((fst (touchPosition (release_sequence h sw (Suc n))))\<^sup>2
               + (snd (touchPosition (release_sequence h sw (Suc n))))\<^sup>2)
           \<le> sqrt ((fst (touchPosition (release_sequence h sw n)))\<^sup>2
                   + (snd (touchPosition (release_sequence h sw n)))\<^sup>2))
   \<and> (\<forall>n. decayIntervals (release_sequence h sw n) > 0 \<longrightarrow>
          touchPosition (release_sequence h sw (Suc n)) =
            (let newX = fst (touchPosition (release_sequence h sw n)) * (92 / 100);
                 newY = snd (touchPosition (release_sequence h sw n)) * (92 / 100)
             in if \<bar>newX\<bar> < 1 / 100 \<and> \<bar>newY\<bar> < 1 / 100 then (0, 0) else (newX, newY)))
   \<and> (\<forall>n. decayIntervals (release_sequence h sw n) > 0
          \<and> \<bar>fst (touchPosition (release_sequence h sw n))\<bar> < 1 / 100
          \<and> \<bar>snd (touchPosition (release_sequence h sw n))\<bar> < 1 / 100 \<longrightarrow>
          touchPosition (release_sequence h sw (Suc n)) = (0, 0)
        \<and> decayIntervals (release_sequence h sw (Suc n))
            = decayIntervals (release_sequence h sw n) - 1)
   \<and> (\<exists>N. \<forall>n \<ge> N. touchPosition (release_sequence h sw n) = (0, 0)
                  \<and> decayIntervals (release_sequence h sw n) = 0)"
proof -
  have run: "decayIntervals (fst (handleTouchEnd h sw)) > 0"
    by (simp add: handleTouchEnd_def)
  have step: "release_sequence h sw (Suc n) = decay_tick (release_sequence h sw n)" for n
    by (simp add: release_sequence_def)
  have mono: "\<bar>fst (touchPosition (release_sequence h sw (Suc n)))\<bar>
           \<le> \<bar>fst (touchPosition (release_sequence h sw n))\<bar>
       \<and> \<bar>snd (touchPosition (release_sequence h sw (Suc n)))\<bar>
           \<le> \<bar>snd (touchPosition (release_sequence h sw n))\<bar>
       \<and> sqrt ((fst (touchPosition (release_sequence h sw (Suc n))))\<^sup>2
               + (snd (touchPosition (release_sequence h sw (Suc n))))\<^sup>2)
           \<le> sqrt ((fst (touchPosition (release_sequence h sw n)))\<^sup>2
                   + (snd (touchPosition (release_sequence h sw n)))\<^sup>2)" for n
    unfolding step using decay_tick_abs decay_tick_norm by blast
  have tick: "decayIntervals (release_sequence h sw n) > 0 \<longrightarrow>
          touchPosition (release_sequence h sw (Suc n)) =
            (let newX = fst (touchPosition (release_sequence h sw n)) * (92 / 100);
                 newY = snd (touchPosition (release_sequence h sw n)) * (92 / 100)
             in if \<bar>newX\<bar> < 1 / 100 \<and> \<bar>newY\<bar> < 1 / 100 then (0, 0) else (newX, newY))" for n
    unfolding step by (simp add: decay_tick_def Let_def)
  have snap: "decayIntervals (release_sequence h sw n) > 0
          \<and> \<bar>fst (touchPosition (release_sequence h sw n))\<bar> < 1 / 100
          \<and> \<bar>snd (touchPosition (release_sequence h sw n))\<bar> < 1 / 100 \<longrightarrow>
          touchPosition (release_sequence h sw (Suc n)) = (0, 0)
        \<and> decayIntervals (release_sequence h sw (Suc n))
            = decayIntervals (release_sequence h sw n) - 1" for n
    unfolding step using decay_tick_small by blast
  have stop: "\<exists>N. \<forall>n \<ge> N. touchPosition (release_sequence h sw n) = (0, 0)
                  \<and> decayIntervals (release_sequence h sw n) = 0"
    unfolding release_sequence_def by (rule decay_stops [OF run])
  from mono tick snap stop show ?thesis by blast
qed


theorem release_decay_witness:
  "let h = \<lparr>isSupported = True, isEnabled = True, isMobile = True\<rparr>;
       sw = (useTouchPosition_init\<lparr>touchPosition := (1 / 2, 1 / 2), isActive := True\<rparr>,
             \<lparr>clock = 0, localStorage = Map.empty, vibrations = []\<rparr>)
   in touchPosition (release_sequence h sw 0) = (1 / 2, 1 / 2)
    \<and> \<bar>fst (touchPosition (release_sequence h sw 1))\<bar>
        \<le> \<bar>fst (touchPosition (release_sequence h sw 0))\<bar>
    \<and> touchPosition (release_sequence h sw 1) = (46 / 100, 46 / 100)
    \<and> touchPosition (release_sequence h sw 46) \<noteq> (0, 0)
    \<and> touchPosition (release_sequence h sw 47) = (0, 0)
    \<and> decayIntervals (release_sequence h sw 47) = 0
    \<and> (\<exists>N. touchPosition (release_sequence h sw N) = (0, 0)
           \<and> decayIntervals (release_sequence h sw N) = 0)"
proof -
  let ?h = "\<lparr>isSupported = True, isEnabled = True, isMobile = True\<rparr>"
  let ?sw = "(useTouchPosition_init\<lparr>touchPosition := (1 / 2, 1 / 2), isActive := True\<rparr>,
             \<lparr>clock = 0, localStorage = Map.empty, vibrations = []\<rparr>)"
  note defs = release_sequence_def handleTouchEnd_def useTouchPosition_init_def
    decay_tick_def Let_def
  have start: "touchPosition (release_sequence ?h ?sw 0) = (1 / 2, 1 / 2)"
    "decayIntervals (release_sequence ?h ?sw 0) > 0"
    by (simp_all add: defs)
  have all: "\<forall>n. \<bar>fst (touchPosition (release_sequence ?h ?sw (Suc n)))\<bar>
           \<le> \<bar>fst (touchPosition (release_sequence ?h ?sw n))\<bar>
       \<and> \<bar>snd (touchPosition (release_sequence ?h ?sw (Suc n)))\<bar>
           \<le> \<bar>snd (touchPosition (release_sequence ?h ?sw n))\<bar>
       \<and> sqrt ((fst (touchPosition (release_sequence ?h ?sw (Suc n))))\<^sup>2
               + (snd (touchPosition (release_sequence ?h ?sw (Suc n))))\<^sup>2)
           \<le> sqrt ((fst (touchPosition (release_sequence ?h ?sw n)))\<^sup>2
                   + (snd (touchPosition (release_sequence ?h ?sw n)))\<^sup>2)"
    using release_decay [of ?h ?sw] by (rule conjunct1)
  from spec [OF all, of 0] have mono:
    "\<bar>fst (touchPosition (release_sequence ?h ?sw 1))\<bar>
        \<le> \<bar>fst (touchPosition (release_sequence ?h ?sw 0))\<bar>"
    by simp
  have tick: "\<forall>n. decayIntervals (release_sequence ?h ?sw n) > 0 \<longrightarrow>
          touchPosition (release_sequence ?h ?sw (Suc n)) =
            (let newX = fst (touchPosition (release_sequence ?h ?sw n)) * (92 / 100);
                 newY = snd (touchPosition (release_sequence ?h ?sw n)) * (92 / 100)
             in if \<bar>newX\<bar> < 1 / 100 \<and> \<bar>newY\<bar> < 1 / 100 then (0, 0) else (newX, newY))"
    using release_decay [of ?h ?sw] by (elim conjE)
  from spec [OF tick, of 0] start have first:
    "touchPosition (release_sequence ?h ?sw 1) = (46 / 100, 46 / 100)"
    by (simp add: Let_def)
  have "\<exists>N. \<forall>n \<ge> N. touchPosition (release_sequence ?h ?sw n) = (0, 0)
                  \<and> decayIntervals (release_sequence ?h ?sw n) = 0"
    using release_decay [of ?h ?sw] by (elim conjE)
  then have stop: "\<exists>N. touchPosition (release_sequence ?h ?sw N) = (0, 0)
           \<and> decayIntervals (release_sequence ?h ?sw N) = 0"
    by blast
  have run: "touchPosition (release_sequence ?h ?sw 46) \<noteq> (0, 0)
    \<and> touchPosition (release_sequence ?h ?sw 47) = (0, 0)
    \<and> decayIntervals (release_sequence ?h ?sw 47) = 0"
    by (simp add: defs eval_nat_numeral)
  from start(1) mono first stop run show ?thesis
    unfolding Let_def by blast
qed

section \<open>Haptic cooldown\<close>

lemma spaced_snoc:
  assumes "spaced d ts" and "\<forall>t' \<in> set ts. t' + d < t"
  shows "spaced d (ts @ [t])"
  unfolding spaced_def
proof (intro allI impI)
  fix i j assume ij: "i < j" "j < length (ts @ [t])"
  show "(ts @ [t]) ! i + d < (ts @ [t]) ! j"
  proof (cases "j < length ts")
    case True
    with ij assms(1) show ?thesis by (simp add: spaced_def nth_append)
  next
    case False
    with ij have j: "j = length ts" and i: "i < length ts" by simp_all
    from i have "ts ! i \<in> set ts" by simp
    with assms(2) j i show ?thesis by (simp add: nth_append)
  qed
qed

lemma vibrate_effect:
  "clock (vibrate h pat w) = clock w"
  "vibrations (vibrate h pat w) = vibrations w
   \<or> vibrations (vibrate h pat w) = vibrations w @ [(clock w, pat)]"
  by (simp_all add: vibrate_def)

lemma handleTouchStart_effect:
  "lastVibrateTime (fst (handleTouchStart h q iw ih touch (s, w))) = lastVibrateTime s
     \<and> vibrations (snd (handleTouchStart h q iw ih touch (s, w))) = vibrations w
   \<or> clock w - lastVibrateTime s > 100
     \<and> lastVibrateTime (fst (handleTouchStart h q iw ih touch (s, w))) = clock w
     \<and> (vibrations (snd (handleTouchStart h q iw ih touch (s, w))) = vibrations w
        \<or> vibrations (snd (handleTouchStart h q iw ih touch (s, w)))
            = vibrations w @ [(clock w, patterns_touch)])"
  using vibrate_effect(2) [of h patterns_touch w]
  by (auto simp: handleTouchStart_def Let_def split: option.splits prod.splits)

lemma touchMove_frame_effect:
  "lastVibrateTime (fst (touchMove_frame h q iw ih touch (s, w))) = lastVibrateTime s
     \<and> vibrations (snd (touchMove_frame h q iw ih touch (s, w))) = vibrations w
   \<or> clock w - lastVibrateTime s > 300
     \<and> lastVibrateTime (fst (touchMove_frame h q iw ih touch (s, w))) = clock w
     \<and> (vibrations (snd (touchMove_frame h q iw ih touch (s, w))) = vibrations w
        \<or> vibrations (snd (touchMove_frame h q iw ih touch (s, w)))
            = vibrations w @ [(clock w, patterns_gentle)])"
  using vibrate_effect(2) [of h patterns_gentle w]
  by (auto simp: touchMove_frame_def Let_def split: option.splits prod.splits)

lemma handleTouchEnd_effect:
  "lastVibrateTime (fst (handleTouchEnd h (s, w))) = lastVibrateTime s
   \<and> (vibrations (snd (handleTouchEnd h (s, w))) = vibrations w
      \<or> vibrations (snd (handleTouchEnd h (s, w))) = vibrations w @ [(clock w, patterns_release)])"
  using vibrate_effect(2) [of h patterns_release w]
  by (auto simp: handleTouchEnd_def)

lemma touch_step_effect:
  "lastVibrateTime (fst (touch_step h p (s, w) ev)) = lastVibrateTime s
     \<and> (vibrations (snd (touch_step h p (s, w) ev)) = vibrations w
        \<or> vibrations (snd (touch_step h p (s, w) ev))
            = vibrations w @ [(time ev, patterns_release)])
   \<or> time ev - lastVibrateTime s > 100
     \<and> lastVibrateTime (fst (touch_step h p (s, w) ev)) = time ev
     \<and> (vibrations (snd (touch_step h p (s, w) ev)) = vibrations w
        \<or> vibrations (snd (touch_step h p (s, w) ev))
            = vibrations w @ [(time ev, patterns_touch)])
   \<or> time ev - lastVibrateTime s > 300
     \<and> lastVibrateTime (fst (touch_step h p (s, w) ev)) = time ev
     \<and> (vibrations (snd (touch_step h p (s, w) ev)) = vibrations w
        \<or> vibrations (snd (touch_step h p (s, w) ev))
            = vibrations w @ [(time ev, patterns_gentle)])"
proof (cases "shouldAnimate p")
  case False
  then show ?thesis by (simp add: touch_step_def Let_def)
next
  case True
  let ?w = "w\<lparr>clock := time ev\<rparr>"
  show ?thesis
  proof (cases "input ev")
    case (TouchStart touch)
    with True handleTouchStart_effect [of h "animationQuality p" "viewportWidth ev"
        "viewportHeight ev" touch s ?w]
    show ?thesis by (simp add: touch_step_def Let_def; blast)
  next
    case (TouchMove touch)
    with True show ?thesis by (simp add: touch_step_def Let_def handleTouchMove_def)
  next
    case TouchEnd
    with True handleTouchEnd_effect [of h s ?w]
    show ?thesis by (simp add: touch_step_def Let_def; blast)
  next
    case AnimationFrame
    show ?thesis
    proof (cases "pendingFrame s")
      case None
      with True AnimationFrame show ?thesis by (simp add: touch_step_def Let_def)
    next
      case (Some touch)
      with True AnimationFrame touchMove_frame_effect [of h "animationQuality p"
          "viewportWidth ev" "viewportHeight ev" touch s ?w]
      show ?thesis by (simp add: touch_step_def Let_def; blast)
    qed
  next
    case DecayTick
    with True show ?thesis by (simp add: touch_step_def Let_def decay_tick_def)
  next
    case SmoothingTick
    with True show ?thesis by (simp add: touch_step_def Let_def smoothing_tick_def)
  qed
qed

lemma patterns_distinct:
  "patterns_touch \<noteq> patterns_gentle" "patterns_touch \<noteq> patterns_release"
  "patterns_gentle \<noteq> patterns_release"
  by (simp_all add: patterns_touch_def patterns_gentle_def patterns_release_def)

lemma cooldown_keep:
  assumes "cooldown_invariant (s, w)"
    and "lastVibrateTime s \<le> lastVibrateTime s'"
    and "vibrations w' = vibrations w \<or> vibrations w' = vibrations w @ [(t, patterns_release)]"
  shows "cooldown_invariant (s', w')"
  using assms patterns_distinct
  by (fastforce simp: cooldown_invariant_def pulse_times_def)

lemma cooldown_pulse:
  assumes inv: "cooldown_invariant (s, w)"
    and gap: "t - lastVibrateTime s > d" and d: "0 \<le> d"
    and last: "lastVibrateTime s' = t"
    and log: "vibrations w' = vibrations w @ [(t, pat)]"
    and pat: "pat = patterns_touch \<and> d = 100 \<or> pat = patterns_gentle \<and> d = 300"
  shows "cooldown_invariant (s', w')"
proof -
  from inv have old: "\<forall>c \<in> set (vibrations w).
      snd c = patterns_touch \<or> snd c = patterns_gentle \<longrightarrow> fst c \<le> lastVibrateTime s"
    and sp: "spaced 100 (pulse_times patterns_touch w)" "spaced 300 (pulse_times patterns_gentle w)"
    by (simp_all add: cooldown_invariant_def)
  have before: "\<forall>t' \<in> set (pulse_times pat w). t' + d < t"
    using old gap pat by (fastforce simp: pulse_times_def)
  have bound: "\<forall>c \<in> set (vibrations w').
      snd c = patterns_touch \<or> snd c = patterns_gentle \<longrightarrow> fst c \<le> lastVibrateTime s'"
    using old gap d last log by fastforce
  from pat show ?thesis
  proof
    assume p: "pat = patterns_touch \<and> d = 100"
    then have "pulse_times patterns_touch w' = pulse_times patterns_touch w @ [t]"
      "pulse_times patterns_gentle w' = pulse_times patterns_gentle w"
      using log patterns_distinct by (simp_all add: pulse_times_def)
    with sp before p bound show ?thesis
      by (simp add: cooldown_invariant_def spaced_snoc)
  next
    assume p: "pat = patterns_gentle \<and> d = 300"
    then have "pulse_times patterns_gentle w' = pulse_times patterns_gentle w @ [t]"
      "pulse_times patterns_touch w' = pulse_times patterns_touch w"
      using log patterns_distinct by (simp_all add: pulse_times_def)
    with sp before p bound show ?thesis
      by (simp add: cooldown_invariant_def spaced_snoc)
  qed
qed

lemma touch_step_invariant:
  assumes "cooldown_invariant sw"
  shows "cooldown_invariant (touch_step h p sw ev)"
proof -
  obtain s w where sw: "sw = (s, w)" by (cases sw)
  obtain s' w' where sw': "touch_step h p (s, w) ev = (s', w')" by (cases "touch_step h p (s, w) ev")
  from assms sw have inv: "cooldown_invariant (s, w)" by simp
  from touch_step_effect [of h p s w ev] sw'
  consider
    (keep) "lastVibrateTime s' = lastVibrateTime s"
      "vibrations w' = vibrations w \<or> vibrations w' = vibrations w @ [(time ev, patterns_release)]"
  | (late) d where "d = 100 \<or> d = 300" "time ev - lastVibrateTime s > d"
      "lastVibrateTime s' = time ev" "vibrations w' = vibrations w"
  | (touch) "time ev - lastVibrateTime s > 100" "lastVibrateTime s' = time ev"
      "vibrations w' = vibrations w @ [(time ev, patterns_touch)]"
  | (gentle) "time ev - lastVibrateTime s > 300" "lastVibrateTime s' = time ev"
      "vibrations w' = vibrations w @ [(time ev, patterns_gentle)]"
    by auto
  then have "cooldown_invariant (s', w')"
  proof cases
    case keep
    show ?thesis
      by (rule cooldown_keep [where s = s and w = w and t = "time ev"])
        (use inv keep in simp_all)
  next
    case late
    then have "lastVibrateTime s \<le> lastVibrateTime s'" by auto
    then show ?thesis
      by (rule cooldown_keep [where s = s and w = w and t = "time ev", rotated])
        (use inv late(4) in simp_all)
  next
    case touch
    show ?thesis
      by (rule cooldown_pulse [where s = s and w = w and t = "time ev" and d = 100
            and pat = patterns_touch])
        (use inv touch in simp_all)
  next
    case gentle
    show ?thesis
      by (rule cooldown_pulse [where s = s and w = w and t = "time ev" and d = 300
            and pat = patterns_gentle])
        (use inv gentle in simp_all)
  qed
  with sw sw' show ?thesis by simp
qed

lemma touch_run_invariant:
  "cooldown_invariant sw \<Longrightarrow> cooldown_invariant (touch_run h p sw evs)"
  unfolding touch_run_def
  by (induction evs arbitrary: sw) (simp_all add: touch_step_invariant)

text \<open>
  The throttle of one hook call. In one mounted touch hook, for any haptic cells and policy and whatever
  events reach it after mount: of two calls to \<^verbatim>\<open>navigator.vibrate\<close> with the
  touch-start pattern, the later is made more than 100 ms (by the readings of
  \<^verbatim>\<open>Date.now()\<close>) after the earlier, and of two calls with the move pattern, more than
  300 ms after.
\<close>

lemma haptic_cooldown:
  "let w' = snd (touch_run h p
                  (useTouchPosition_init, \<lparr>clock = c, localStorage = ls, vibrations = []\<rparr>) evs);
       starts = pulse_times patterns_touch w';
       moves = pulse_times patterns_gentle w'
   in (\<forall>i j. i < j \<longrightarrow> j < length starts \<longrightarrow> starts ! i + 100 < starts ! j)
    \<and> (\<forall>i j. i < j \<longrightarrow> j < length moves \<longrightarrow> moves ! i + 300 < moves ! j)"
proof -
  have "cooldown_invariant (useTouchPosition_init, \<lparr>clock = c, localStorage = ls, vibrations = []\<rparr>)"
    by (simp add: cooldown_invariant_def pulse_times_def spaced_def)
  from touch_run_invariant [OF this, of h p evs] show ?thesis
    by (simp add: cooldown_invariant_def spaced_def Let_def)
qed

text \<open>
  The test \<^verbatim>\<open>distance > 0.6\<close> of the move callback without the square root, in the form
  the simplifier brings it to.
\<close>

lemma distance_threshold: "(3 < sqrt v * 5) = (9 < v * 25)"
proof -
  have s: "sqrt (9 / 25) = 3 / 5"
    using real_sqrt_abs [of "3 / 5"] by (simp add: power2_eq_square)
  have "(3 < sqrt v * 5) = (3 / 5 < sqrt v)" by auto
  also have "\<dots> = (sqrt (9 / 25) < sqrt v)" by (simp only: s)
  also have "\<dots> = (9 / 25 < v)" by (rule real_sqrt_less_iff)
  also have "\<dots> = (9 < v * 25)" by auto
  finally show ?thesis .
qed

lemma haptic_cooldown_example:
  "let evs = [\<lparr>time = 1000, viewportWidth = 800, viewportHeight = 800, input = TouchStart (Some (400, 400))\<rparr>,
              \<lparr>time = 1050, viewportWidth = 800, viewportHeight = 800, input = TouchStart (Some (400, 400))\<rparr>,
              \<lparr>time = 1100, viewportWidth = 800, viewportHeight = 800, input = TouchMove (Some (800, 800))\<rparr>,
              \<lparr>time = 1116, viewportWidth = 800, viewportHeight = 800, input = AnimationFrame\<rparr>,
              \<lparr>time = 1150, viewportWidth = 800, viewportHeight = 800, input = TouchStart (Some (800, 800))\<rparr>,
              \<lparr>time = 1500, viewportWidth = 800, viewportHeight = 800, input = TouchMove (Some (800, 800))\<rparr>,
              \<lparr>time = 1516, viewportWidth = 800, viewportHeight = 800, input = AnimationFrame\<rparr>,
              \<lparr>time = 1600, viewportWidth = 800, viewportHeight = 800, input = TouchMove (Some (800, 800))\<rparr>,
              \<lparr>time = 1616, viewportWidth = 800, viewportHeight = 800, input = AnimationFrame\<rparr>,
              \<lparr>time = 1900, viewportWidth = 800, viewportHeight = 800, input = TouchMove (Some (800, 800))\<rparr>,
              \<lparr>time = 1916, viewportWidth = 800, viewportHeight = 800, input = AnimationFrame\<rparr>];
       w' = snd (touch_run \<lparr>isSupported = True, isEnabled = True, isMobile = True\<rparr>
                  (useOptimizedAnimation_init True)
                  (useTouchPosition_init, \<lparr>clock = 0, localStorage = Map.empty, vibrations = []\<rparr>)
                  evs)
   in pulse_times patterns_touch w' = [1000, 1150]
    \<and> pulse_times patterns_gentle w' = [1516, 1916]
    \<and> pulse_times patterns_touch w' ! 0 + 100 < pulse_times patterns_touch w' ! 1
    \<and> pulse_times patterns_gentle w' ! 0 + 300 < pulse_times patterns_gentle w' ! 1"
proof -
  let ?evs = "[\<lparr>time = 1000, viewportWidth = 800, viewportHeight = 800, input = TouchStart (Some (400, 400))\<rparr>,
              \<lparr>time = 1050, viewportWidth = 800, viewportHeight = 800, input = TouchStart (Some (400, 400))\<rparr>,
              \<lparr>time = 1100, viewportWidth = 800, viewportHeight = 800, input = TouchMove (Some (800, 800))\<rparr>,
              \<lparr>time = 1116, viewportWidth = 800, viewportHeight = 800, input = AnimationFrame\<rparr>,
              \<lparr>time = 1150, viewportWidth = 800, viewportHeight = 800, input = TouchStart (Some (800, 800))\<rparr>,
              \<lparr>time = 1500, viewportWidth = 800, viewportHeight = 800, input = TouchMove (Some (800, 800))\<rparr>,
              \<lparr>time = 1516, viewportWidth = 800, viewportHeight = 800, input = AnimationFrame\<rparr>,
              \<lparr>time = 1600, viewportWidth = 800, viewportHeight = 800, input = TouchMove (Some (800, 800))\<rparr>,
              \<lparr>time = 1616, viewportWidth = 800, viewportHeight = 800, input = AnimationFrame\<rparr>,
              \<lparr>time = 1900, viewportWidth = 800, viewportHeight = 800, input = TouchMove (Some (800, 800))\<rparr>,
              \<lparr>time = 1916, viewportWidth = 800, viewportHeight = 800, input = AnimationFrame\<rparr>]"
  let ?w = "snd (touch_run \<lparr>isSupported = True, isEnabled = True, isMobile = True\<rparr>
                  (useOptimizedAnimation_init True)
                  (useTouchPosition_init, \<lparr>clock = 0, localStorage = Map.empty, vibrations = []\<rparr>)
                  ?evs)"
  have log: "vibrations ?w = [(1000, patterns_touch), (1150, patterns_touch),
                              (1516, patterns_gentle), (1916, patterns_gentle)]"
    by (simp add: touch_run_def touch_step_def handleTouchStart_def handleTouchMove_def
        touchMove_frame_def vibrate_def touch_offset_def useTouchPosition_init_def
        useOptimizedAnimation_init_def Let_def distance_threshold power2_eq_square)
  have times: "pulse_times patterns_touch ?w = [1000, 1150]"
    "pulse_times patterns_gentle ?w = [1516, 1916]"
    unfolding pulse_times_def log
    by (simp_all add: patterns_touch_def patterns_gentle_def)
  have gaps: "(\<forall>i j. i < j \<longrightarrow> j < length (pulse_times patterns_touch ?w) \<longrightarrow>
                 pulse_times patterns_touch ?w ! i + 100 < pulse_times patterns_touch ?w ! j)
    \<and> (\<forall>i j. i < j \<longrightarrow> j < length (pulse_times patterns_gentle ?w) \<longrightarrow>
                 pulse_times patterns_gentle ?w ! i + 300 < pulse_times patterns_gentle ?w ! j)"
    using haptic_cooldown [of "\<lparr>isSupported = True, isEnabled = True, isMobile = True\<rparr>"
        "useOptimizedAnimation_init True" 0 Map.empty ?evs]
    unfolding Let_def .
  have len: "(0::nat) < 1" "1 < length (pulse_times patterns_touch ?w)"
    "1 < length (pulse_times patterns_gentle ?w)"
    by (simp_all only: times) simp_all
  from gaps len have
    "pulse_times patterns_touch ?w ! 0 + 100 < pulse_times patterns_touch ?w ! 1"
    "pulse_times patterns_gentle ?w ! 0 + 300 < pulse_times patterns_gentle ?w ! 1"
    by blast+
  with times show ?thesis unfolding Let_def by blast
qed

section \<open>Haptics on the page\<close>

lemma snd_window_dispatch_Cons:
  "snd (window_dispatch ev ((h, p, s) # hooks) w)
     = snd (window_dispatch ev hooks (snd (touch_step h p (s, w) ev)))"
  by (simp add: Let_def split_beta)

lemma touchStart_fresh:
  "isSupported h \<Longrightarrow> isEnabled h \<Longrightarrow> isMobile h \<Longrightarrow> shouldAnimate p \<Longrightarrow> 100 < t \<Longrightarrow>
   vibrations (snd (touch_step h p (useTouchPosition_init, w)
       \<lparr>time = t, viewportWidth = vw, viewportHeight = vh, input = TouchStart touch\<rparr>))
     = vibrations w @ [(t, patterns_touch)]"
  by (cases touch)
    (auto simp: touch_step_def handleTouchStart_def vibrate_def useTouchPosition_init_def Let_def)

lemma window_dispatch_fresh:
  assumes "isSupported h" "isEnabled h" "isMobile h" "shouldAnimate p" "100 < t"
  shows "vibrations (snd (window_dispatch
       \<lparr>time = t, viewportWidth = vw, viewportHeight = vh, input = TouchStart touch\<rparr>
       (replicate n (h, p, useTouchPosition_init)) w))
     = vibrations w @ replicate n (t, patterns_touch)"
proof (induction n arbitrary: w)
  case 0
  show ?case by simp
next
  case (Suc n)
  let ?ev = "\<lparr>time = t, viewportWidth = vw, viewportHeight = vh, input = TouchStart touch\<rparr>"
  let ?w' = "snd (touch_step h p (useTouchPosition_init, w) ?ev)"
  have "vibrations (snd (window_dispatch ?ev (replicate (Suc n) (h, p, useTouchPosition_init)) w))
      = vibrations (snd (window_dispatch ?ev (replicate n (h, p, useTouchPosition_init)) ?w'))"
    by (simp only: replicate_Suc snd_window_dispatch_Cons)
  also have "\<dots> = vibrations ?w' @ replicate n (t, patterns_touch)"
    by (rule Suc.IH)
  also have "\<dots> = vibrations w @ replicate (Suc n) (t, patterns_touch)"
    by (simp add: touchStart_fresh [OF assms])
  finally show ?case .
qed

lemma world_Home_touch:
  "world (Home_touch ev pg) = snd (window_dispatch ev (touchHooks pg) (world pg))"
  by (simp add: Home_touch_def split_beta)

text \<open>
  Claim C6, on the page mounted on a capable mobile-class device with no saved
  preference: the user disables haptics with the toggle, which turns the preference cell
  of \<^verbatim>\<open>HapticToggle\<close> off and persists \<^verbatim>\<open>"false"\<close>, and then touches the screen. Each of
  the 16 touch hooks calls \<^verbatim>\<open>navigator.vibrate(12)\<close>: its \<^verbatim>\<open>vibrate\<close> reads the preference
  cell of its own \<^verbatim>\<open>useHapticFeedback\<close> call, which the toggle does not write.
\<close>

theorem preference_disabled_still_vibrates:
  "let w0 = \<lparr>clock = 0, localStorage = Map.empty, vibrations = []\<rparr>;
       pg1 = HapticToggle_click (Home_mount 390 True True w0);
       pg2 = Home_touch \<lparr>time = 1000, viewportWidth = 390, viewportHeight = 800,
                          input = TouchStart (Some (100, 200))\<rparr> pg1
   in isEnabled (hapticToggle pg1) = False
    \<and> localStorage (world pg1) ''haptic-feedback'' = Some ''false''
    \<and> vibrations (world pg1) = []
    \<and> vibrations (world pg2) = replicate 16 (1000, patterns_touch)"
proof -
  let ?w0 = "\<lparr>clock = 0, localStorage = Map.empty, vibrations = []\<rparr>"
  let ?h = "useHapticFeedback_mount 390 True True ?w0 useHapticFeedback_init"
  let ?p = "useOptimizedAnimation_effect High True 390 (useOptimizedAnimation_init True)"
  let ?ev = "\<lparr>time = 1000, viewportWidth = 390, viewportHeight = 800,
               input = TouchStart (Some (100, 200))\<rparr>"
  let ?pg1 = "HapticToggle_click (Home_mount 390 True True ?w0)"
  have h: "isSupported ?h" "isEnabled ?h" "isMobile ?h"
    by (simp_all add: useHapticFeedback_mount_def checkSupport_def useHapticFeedback_init_def
        Let_def)
  have p: "shouldAnimate ?p"
    by (simp add: useOptimizedAnimation_effect_def)
  have pg1: "hapticToggle ?pg1 = fst (toggleHaptics ?h ?w0)"
    "world ?pg1 = snd (toggleHaptics ?h ?w0)"
    "touchHooks ?pg1 = replicate 16 (?h, ?p, useTouchPosition_init)"
    using h by (simp_all add: HapticToggle_click_def Home_mount_def Let_def split_beta)
  have off: "isEnabled (fst (toggleHaptics ?h ?w0)) = False"
    "localStorage (snd (toggleHaptics ?h ?w0)) ''haptic-feedback'' = Some ''false''"
    "vibrations (snd (toggleHaptics ?h ?w0)) = []"
    using h by (simp_all add: toggleHaptics_def Let_def)
  have "vibrations (world (Home_touch ?ev ?pg1))
      = vibrations (world ?pg1) @ replicate 16 (1000, patterns_touch)"
    unfolding world_Home_touch pg1(3)
    by (rule window_dispatch_fresh [OF h p]) simp
  with off pg1 show ?thesis
    by (simp add: Let_def)
qed

text \<open>
  Claim C8, on the page mounted on a capable mobile-class device with haptics enabled:
  one \<^verbatim>\<open>touchstart\<close> at clock reading 1000 makes 16 calls \<^verbatim>\<open>navigator.vibrate(12)\<close>, all
  at reading 1000, so touch-start pulses 0 ms apart. Every touch hook throttles against
  its own \<^verbatim>\<open>lastVibrateTime\<close>.
\<close>

theorem touch_start_pulses_together:
  "let w0 = \<lparr>clock = 0, localStorage = Map.empty, vibrations = []\<rparr>;
       pg = Home_touch \<lparr>time = 1000, viewportWidth = 390, viewportHeight = 800,
                         input = TouchStart (Some (100, 200))\<rparr>
              (Home_mount 390 True True w0);
       starts = pulse_times patterns_touch (world pg)
   in starts = replicate 16 1000
    \<and> starts ! 1 - starts ! 0 = 0"
proof -
  let ?w0 = "\<lparr>clock = 0, localStorage = Map.empty, vibrations = []\<rparr>"
  let ?h = "useHapticFeedback_mount 390 True True ?w0 useHapticFeedback_init"
  let ?p = "useOptimizedAnimation_effect High True 390 (useOptimizedAnimation_init True)"
  let ?ev = "\<lparr>time = 1000, viewportWidth = 390, viewportHeight = 800,
               input = TouchStart (Some (100, 200))\<rparr>"
  let ?pg = "Home_mount 390 True True ?w0"
  have h: "isSupported ?h" "isEnabled ?h" "isMobile ?h"
    by (simp_all add: useHapticFeedback_mount_def checkSupport_def useHapticFeedback_init_def
        Let_def)
  have p: "shouldAnimate ?p"
    by (simp add: useOptimizedAnimation_effect_def)
  have pg: "world ?pg = ?w0" "touchHooks ?pg = replicate 16 (?h, ?p, useTouchPosition_init)"
    by (simp_all add: Home_mount_def Let_def)
  have "vibrations (world (Home_touch ?ev ?pg))
      = vibrations ?w0 @ replicate 16 (1000, patterns_touch)"
    unfolding world_Home_touch pg
    by (rule window_dispatch_fresh [OF h p]) simp
  then have "pulse_times patterns_touch (world (Home_touch ?ev ?pg)) = replicate 16 1000"
    by (simp add: pulse_times_def)
  then show ?thesis by (simp add: Let_def)
qed

end
